theory Spec2Isabelle
  imports Main "HOL-Library.Sublist"
begin

section \<open>Values and records\<close>

text \<open>
  The datasets are JSON arrays of flat objects, read by \<^verbatim>\<open>json.load\<close>. A field of a
  record holds a JSON scalar: \<^verbatim>\<open>null\<close>, a boolean, an integer or a string. Floating
  point numbers and nested arrays or objects are outside this model.

  A record (\<^verbatim>\<open>Dict[str, Any]\<close>) is the list of its key/value pairs; \<^verbatim>\<open>item.get(k)\<close>
  is the lookup in that list. A string is the list of the bytes of its UTF-8 encoding:
  equality, emptiness, concatenation and the substring test on the encodings are those
  of the strings.
\<close>

datatype pyval = PNone | PBool bool | PInt int | PStr string

type_synonym item = "(string \<times> pyval) list"

text \<open>\<^verbatim>\<open>item.get(field)\<close>: \<^verbatim>\<open>None\<close> when the key is missing.\<close>

definition py_get :: "item \<Rightarrow> string \<Rightarrow> pyval" where
  "py_get it field = (case map_of it field of None \<Rightarrow> PNone | Some v \<Rightarrow> v)"

text \<open>\<^verbatim>\<open>item.get(field, default)\<close>.\<close>

definition py_get_default :: "item \<Rightarrow> string \<Rightarrow> pyval \<Rightarrow> pyval" where
  "py_get_default it field d = (case map_of it field of None \<Rightarrow> d | Some v \<Rightarrow> v)"

text \<open>Truthiness, as \<^verbatim>\<open>if v\<close> and \<^verbatim>\<open>not v\<close> test it.\<close>

fun truthy :: "pyval \<Rightarrow> bool" where
  "truthy PNone = False"
| "truthy (PBool b) = b"
| "truthy (PInt n) = (n \<noteq> 0)"
| "truthy (PStr s) = (s \<noteq> [])"

text \<open>
  Python's \<^verbatim>\<open>==\<close> on these values: booleans are the integers 0 and 1, values of
  different kinds are otherwise unequal.
\<close>

fun py_eq :: "pyval \<Rightarrow> pyval \<Rightarrow> bool" where
  "py_eq PNone PNone = True"
| "py_eq (PBool a) (PBool b) = (a = b)"
| "py_eq (PBool a) (PInt n) = ((of_bool a :: int) = n)"
| "py_eq (PInt n) (PBool b) = (n = (of_bool b :: int))"
| "py_eq (PInt m) (PInt n) = (m = n)"
| "py_eq (PStr s) (PStr t) = (s = t)"
| "py_eq _ _ = False"

subsection \<open>Strings\<close>

text \<open>
  \<^verbatim>\<open>str.lower\<close> is a builtin of Python and follows the Unicode case mappings, which
  depend on the context of a letter and may change the length of a string. It is a
  parameter of the model: a function on strings of which two facts are kept, that it
  maps the empty string to the empty string and a non-empty string to a non-empty one.
  Every function that lower-cases takes this parameter.
\<close>

typedef lowering =
  "{f :: string \<Rightarrow> string. f [] = [] \<and> (\<forall>s. s \<noteq> [] \<longrightarrow> f s \<noteq> [])}"
  by (rule exI [of _ id]) simp

setup_lifting type_definition_lowering

text \<open>\<^verbatim>\<open>s.lower()\<close>.\<close>

definition str_lower :: "lowering \<Rightarrow> string \<Rightarrow> string" where
  "str_lower L s = Rep_lowering L s"

text \<open>
  One such function, for the examples: the letters \<^verbatim>\<open>A\<close> to \<^verbatim>\<open>Z\<close> go to \<^verbatim>\<open>a\<close> to
  \<^verbatim>\<open>z\<close> and every other byte is kept, which is \<^verbatim>\<open>str.lower\<close> on ASCII strings.
\<close>

definition lower_char :: "char \<Rightarrow> char" where
  "lower_char c =
     (let n = (of_char c :: nat) in if 65 \<le> n \<and> n \<le> 90 then char_of (n + 32) else c)"

lift_definition ascii_lower :: lowering is "map lower_char"
  by simp

text \<open>\<^verbatim>\<open>str(n)\<close> for an integer: its decimal digits, with a minus sign when negative.\<close>

fun str_nat :: "nat \<Rightarrow> string" where
  "str_nat n =
     (if n < 10 then [char_of (48 + n)]
      else str_nat (n div 10) @ [char_of (48 + n mod 10)])"

declare str_nat.simps [simp del]

definition str_int :: "int \<Rightarrow> string" where
  "str_int i = (if i < 0 then CHR ''-'' # str_nat (nat (- i)) else str_nat (nat i))"

text \<open>\<^verbatim>\<open>str(value)\<close>.\<close>

fun py_str :: "pyval \<Rightarrow> string" where
  "py_str PNone = ''None''"
| "py_str (PBool b) = (if b then ''True'' else ''False'')"
| "py_str (PInt n) = str_int n"
| "py_str (PStr s) = s"

text \<open>\<^verbatim>\<open>" ".join(parts)\<close>.\<close>

fun join_space :: "string list \<Rightarrow> string" where
  "join_space [] = []"
| "join_space [p] = p"
| "join_space (p # ps) = p @ CHR '' '' # join_space ps"

text \<open>\<^verbatim>\<open>q in h\<close> for strings: \<open>q\<close> starts at some position of \<open>h\<close>.\<close>

fun str_contains :: "string \<Rightarrow> string \<Rightarrow> bool" where
  "str_contains q [] = (q = [])"
| "str_contains q (c # cs) = (prefix q (c # cs) \<or> str_contains q cs)"

section \<open>The filter engine\<close>

text \<open>\<^verbatim>\<open>normalize\<close>: a string is lower-cased, any other value is returned as it is.\<close>

fun normalize_val :: "lowering \<Rightarrow> pyval \<Rightarrow> pyval" where
  "normalize_val L (PStr s) = PStr (str_lower L s)"
| "normalize_val L v = v"

text \<open>
  \<^verbatim>\<open>exact_filters\<close> is a dictionary from field names to expected values, given here
  by its items. \<^verbatim>\<open>cleaned_filters\<close> keeps the entries with a truthy value.
\<close>

definition cleaned_filters :: "(string \<times> pyval) list \<Rightarrow> (string \<times> pyval) list" where
  "cleaned_filters exact_filters = filter (\<lambda>(k, v). truthy v) exact_filters"

text \<open>\<^verbatim>\<open>q = search_query.lower() if search_query else None\<close>.\<close>

definition query_of :: "lowering \<Rightarrow> string option \<Rightarrow> string option" where
  "query_of L search_query =
     (case search_query of
        None \<Rightarrow> None
      | Some s \<Rightarrow> if s \<noteq> [] then Some (str_lower L s) else None)"

text \<open>The loop of \<^verbatim>\<open>matches\<close> over the cleaned filters; it returns at the first failure.\<close>

fun exact_loop :: "lowering \<Rightarrow> (string \<times> pyval) list \<Rightarrow> item \<Rightarrow> bool" where
  "exact_loop L [] it = True"
| "exact_loop L ((field, expected) # rest) it =
     (let v = py_get it field in
      if v = PNone \<or> \<not> py_eq (normalize_val L v) (normalize_val L expected) then False
      else exact_loop L rest it)"

definition haystack :: "string list \<Rightarrow> item \<Rightarrow> string" where
  "haystack search_fields it =
     join_space (map (\<lambda>field. py_str (py_get_default it field (PStr []))) search_fields)"

definition matches ::
  "lowering \<Rightarrow> (string \<times> pyval) list \<Rightarrow> string option \<Rightarrow> string list \<Rightarrow> item \<Rightarrow> bool" where
  "matches L cleaned q search_fields it =
     (if \<not> exact_loop L cleaned it then False
      else case q of
        None \<Rightarrow> True
      | Some qs \<Rightarrow>
          if qs \<noteq> [] then
            (if \<not> str_contains qs (str_lower L (haystack search_fields it)) then False
             else True)
          else True)"

definition apply_filters ::
  "lowering \<Rightarrow> item list \<Rightarrow> (string \<times> pyval) list \<Rightarrow> string option \<Rightarrow> string list
     \<Rightarrow> item list" where
  "apply_filters L items exact_filters search_query search_fields =
     (let cleaned = cleaned_filters exact_filters;
          q = query_of L search_query
      in filter (matches L cleaned q search_fields) items)"

section \<open>The request handlers\<close>

text \<open>
  A handler returns a JSON body and a status code. The datasets \<^verbatim>\<open>RESOURCES\<close> and
  \<^verbatim>\<open>OPPORTUNITIES\<close> are globals of the program, read-only after start-up; here they
  are arguments. A query parameter is \<open>None\<close> when the request does not carry it.
\<close>

datatype body =
    Record_body item
  | Error_body string
  | Results_body nat "item list"
  | Login_body bool string

type_synonym response = "body \<times> nat"

definition arg_val :: "string option \<Rightarrow> pyval" where
  "arg_val a = (case a of None \<Rightarrow> PNone | Some s \<Rightarrow> PStr s)"

text \<open>
  \<^verbatim>\<open>if limit: filtered = filtered[: max(limit, 0)]\<close>, where \<^verbatim>\<open>limit\<close> is an integer or
  \<^verbatim>\<open>None\<close>.
\<close>

definition list_resources ::
  "lowering \<Rightarrow> item list \<Rightarrow> string option \<Rightarrow> string option \<Rightarrow> string option \<Rightarrow> int option \<Rightarrow> response" where
  "list_resources L RESOURCES county resource_type query limit =
     (let filtered = apply_filters L RESOURCES
            [(''county'', arg_val county), (''type'', arg_val resource_type)]
            query [''name'', ''description'', ''county'', ''type''];
          filtered = (case limit of
                        None \<Rightarrow> filtered
                      | Some n \<Rightarrow> if n \<noteq> 0 then take (nat (max n 0)) filtered else filtered)
      in (Results_body (length filtered) filtered, 200))"

definition get_resource :: "item list \<Rightarrow> string \<Rightarrow> response" where
  "get_resource RESOURCES resource_id =
     (case filter (\<lambda>r. py_eq (py_get r ''id'') (PStr resource_id)) RESOURCES of
        [] \<Rightarrow> (Error_body ''Resource not found'', 404)
      | m # _ \<Rightarrow> (Record_body m, 200))"

definition list_opportunities ::
  "lowering \<Rightarrow> item list \<Rightarrow> string option \<Rightarrow> string option \<Rightarrow> string option \<Rightarrow> int option \<Rightarrow> response" where
  "list_opportunities L OPPORTUNITIES county category query limit =
     (let filtered = apply_filters L OPPORTUNITIES
            [(''county'', arg_val county), (''category'', arg_val category)]
            query [''title'', ''description'', ''county'', ''category''];
          filtered = (case limit of
                        None \<Rightarrow> filtered
                      | Some n \<Rightarrow> if n \<noteq> 0 then take (nat (max n 0)) filtered else filtered)
      in (Results_body (length filtered) filtered, 200))"

definition get_opportunity :: "item list \<Rightarrow> string \<Rightarrow> response" where
  "get_opportunity OPPORTUNITIES opportunity_id =
     (case filter (\<lambda>r. py_eq (py_get r ''id'') (PStr opportunity_id)) OPPORTUNITIES of
        [] \<Rightarrow> (Error_body ''Opportunity not found'', 404)
      | m # _ \<Rightarrow> (Record_body m, 200))"

subsection \<open>Dictionaries keyed by values\<close>

text \<open>
  The dictionary \<^verbatim>\<open>counts\<close> of \<^verbatim>\<open>tally\<close> is keyed by field values, and \<^verbatim>\<open>USERS\<close> is
  looked up with a value of the request. Such a dictionary is the list of its entries in
  insertion order; a key is found by \<^verbatim>\<open>==\<close>, so that \<^verbatim>\<open>True\<close> and \<^verbatim>\<open>1\<close> are one key,
  and a store to an existing key keeps the key object and replaces the value.
\<close>

fun dict_find :: "(pyval \<times> 'v) list \<Rightarrow> pyval \<Rightarrow> 'v option" where
  "dict_find [] k = None"
| "dict_find ((k', v) # rest) k = (if py_eq k' k then Some v else dict_find rest k)"

fun dict_set :: "(pyval \<times> 'v) list \<Rightarrow> pyval \<Rightarrow> 'v \<Rightarrow> (pyval \<times> 'v) list" where
  "dict_set [] k v = [(k, v)]"
| "dict_set ((k', c) # rest) k v =
     (if py_eq k' k then (k', v) # rest else (k', c) # dict_set rest k v)"

text \<open>\<^verbatim>\<open>counts.get(k, 0)\<close>.\<close>

definition counts_get :: "(pyval \<times> nat) list \<Rightarrow> pyval \<Rightarrow> nat" where
  "counts_get counts k = (case dict_find counts k of None \<Rightarrow> 0 | Some c \<Rightarrow> c)"

text \<open>A well-formed dictionary: no two entries have keys that are \<^verbatim>\<open>==\<close>.\<close>

fun dict_keys_distinct :: "(pyval \<times> 'v) list \<Rightarrow> bool" where
  "dict_keys_distinct [] = True"
| "dict_keys_distinct ((k, v) # rest) = (dict_find rest k = None \<and> dict_keys_distinct rest)"

subsection \<open>Statistics\<close>

fun tally_loop :: "(pyval \<times> nat) list \<Rightarrow> item list \<Rightarrow> string \<Rightarrow> (pyval \<times> nat) list" where
  "tally_loop counts [] key = counts"
| "tally_loop counts (it # items) key =
     (let k = py_get it key in
      if \<not> truthy k then tally_loop counts items key
      else tally_loop (dict_set counts k (counts_get counts k + 1)) items key)"

definition tally :: "item list \<Rightarrow> string \<Rightarrow> (pyval \<times> nat) list" where
  "tally items key = tally_loop [] items key"

subsection \<open>Login\<close>

definition USERS :: "(pyval \<times> pyval) list" where
  "USERS = [(PStr ''demo@nrtr.org'', PStr ''demo123''),
            (PStr ''admin@nrtr.org'', PStr ''adminpass'')]"

text \<open>
  \<^verbatim>\<open>data\<close> is the JSON object of the request body; a body that is not a JSON object
  makes \<^verbatim>\<open>data.get\<close> raise and is not an input of this model. The test
  \<^verbatim>\<open>email in USERS and USERS[email] == password\<close> reads \<^verbatim>\<open>USERS[email]\<close> only when the
  key is there.
\<close>

definition login :: "item \<Rightarrow> response" where
  "login data =
     (let email = py_get data ''email'';
          password = py_get data ''password''
      in if (case dict_find USERS email of
               None \<Rightarrow> False
             | Some secret \<Rightarrow> py_eq secret password)
         then (Login_body True ''Login successful'', 200)
         else (Login_body False ''Invalid credentials'', 401))"

section \<open>Properties of the filter engine\<close>

subsection \<open>Auxiliary facts\<close>

lemma apply_filters_filter:
  "apply_filters L items ef sq sf = filter (matches L (cleaned_filters ef) (query_of L sq) sf) items"
  by (simp add: apply_filters_def)

lemma str_contains_iff: "str_contains q h \<longleftrightarrow> (\<exists>ps ss. h = ps @ q @ ss)"
proof (induction h)
  case Nil
  then show ?case by auto
next
  case (Cons c cs)
  show ?case
  proof
    assume "str_contains q (c # cs)"
    then consider "prefix q (c # cs)" | "str_contains q cs" by auto
    then show "\<exists>ps ss. c # cs = ps @ q @ ss"
    proof cases
      case 1
      then obtain ss where "c # cs = q @ ss" by (auto simp: prefix_def)
      then have "c # cs = [] @ q @ ss" by simp
      then show ?thesis by blast
    next
      case 2
      with Cons.IH obtain ps ss where "cs = ps @ q @ ss" by blast
      then have "c # cs = (c # ps) @ q @ ss" by simp
      then show ?thesis by blast
    qed
  next
    assume "\<exists>ps ss. c # cs = ps @ q @ ss"
    then obtain ps ss where e: "c # cs = ps @ q @ ss" by blast
    show "str_contains q (c # cs)"
    proof (cases ps)
      case Nil
      with e have "prefix q (c # cs)" by (simp add: prefix_def)
      then show ?thesis by simp
    next
      case (Cons p ps')
      with e have "cs = ps' @ q @ ss" by simp
      with Cons.IH have "str_contains q cs" by blast
      then show ?thesis by simp
    qed
  qed
qed

lemma exact_loop_iff:
  "exact_loop L c it \<longleftrightarrow>
     (\<forall>(f, e) \<in> set c.
        py_get it f \<noteq> PNone \<and> py_eq (normalize_val L (py_get it f)) (normalize_val L e))"
  by (induction L c it rule: exact_loop.induct) (auto simp: Let_def)

lemma normalize_eq_cases:
  "py_eq (normalize_val L v) (normalize_val L e) \<longleftrightarrow>
     (case (v, e) of (PStr a, PStr b) \<Rightarrow> str_lower L a = str_lower L b | _ \<Rightarrow> py_eq v e)"
  by (cases v; cases e) auto

lemma py_get_present:
  "py_get it f \<noteq> PNone \<Longrightarrow> \<exists>v. map_of it f = Some v \<and> v \<noteq> PNone \<and> py_get it f = v"
  by (auto simp: py_get_def split: option.splits)

lemma str_lower_Nil: "str_lower L [] = []"
  using Rep_lowering [of L] by (simp add: str_lower_def)

lemma str_lower_Nil_iff: "str_lower L s = [] \<longleftrightarrow> s = []"
  using Rep_lowering [of L] by (auto simp: str_lower_def)

lemma query_of_Some: "s \<noteq> [] \<Longrightarrow> query_of L (Some s) = Some (str_lower L s)"
  by (simp add: query_of_def)

text \<open>
  The haystack of a record, in the words of the specification: the string forms of the
  listed fields, a missing field giving the empty string, joined by single spaces.
\<close>

lemma haystack_spec:
  "haystack sf it =
     join_space (map (\<lambda>f. case map_of it f of None \<Rightarrow> [] | Some v \<Rightarrow> py_str v) sf)"
proof -
  have "(\<lambda>field. py_str (py_get_default it field (PStr []))) =
        (\<lambda>f. case map_of it f of None \<Rightarrow> [] | Some v \<Rightarrow> py_str v)"
    by (auto simp: py_get_default_def fun_eq_iff split: option.splits)
  then show ?thesis by (simp add: haystack_def)
qed

text \<open>A field that is not listed does not reach the haystack.\<close>

lemma haystack_unlisted: "g \<notin> set sf \<Longrightarrow> haystack sf ((g, v) # it) = haystack sf it"
proof -
  assume "g \<notin> set sf"
  then have "map (\<lambda>f. py_str (py_get_default ((g, v) # it) f (PStr []))) sf =
             map (\<lambda>f. py_str (py_get_default it f (PStr []))) sf"
    by (auto simp: py_get_default_def)
  then show ?thesis unfolding haystack_def by (rule arg_cong)
qed

lemma matches_iff:
  "matches L c q sf it \<longleftrightarrow>
     exact_loop L c it \<and>
     (\<forall>qs. q = Some qs \<longrightarrow> qs \<noteq> [] \<longrightarrow> str_contains qs (str_lower L (haystack sf it)))"
  by (auto simp: matches_def split: option.splits)

lemma cleaned_drop:
  "\<not> truthy v \<Longrightarrow> cleaned_filters (ef1 @ (field, v) # ef2) = cleaned_filters (ef1 @ ef2)"
  by (simp add: cleaned_filters_def)

subsection \<open>Exact filters\<close>

text \<open>
  C1. A record that \<open>apply_filters\<close> keeps passes every exact filter that survives the
  cleaning (a truthy, that is non-empty, expected value): the record has the field, its
  value is not \<^verbatim>\<open>None\<close>, and the value equals the expected one, without regard to
  case when both are strings and by Python's \<^verbatim>\<open>==\<close> otherwise. So a record that fails
  one such filter is not in the result. Two strings are equal without regard to case
  when \<^verbatim>\<open>str.lower\<close>, the parameter \<open>L\<close>, gives the same string for both; the
  statement holds for every such function. The instance below is the filter
  \<^verbatim>\<open>type="Food"\<close>, which keeps a record with \<^verbatim>\<open>type: "food"\<close>.
\<close>

theorem exact_filter_only_if:
  assumes "it \<in> set (apply_filters L items ef sq sf)"
    and "(field, expected) \<in> set ef"
    and "truthy expected"
  shows "\<exists>v. map_of it field = Some v \<and> v \<noteq> PNone \<and>
           (case (v, expected) of
              (PStr a, PStr b) \<Rightarrow> str_lower L a = str_lower L b
            | _ \<Rightarrow> py_eq v expected)"
proof -
  from assms(1) have "exact_loop L (cleaned_filters ef) it"
    by (simp add: apply_filters_filter matches_iff)
  moreover from assms(2,3) have "(field, expected) \<in> set (cleaned_filters ef)"
    by (simp add: cleaned_filters_def)
  ultimately have a: "py_get it field \<noteq> PNone"
    and b: "py_eq (normalize_val L (py_get it field)) (normalize_val L expected)"
    by (auto simp: exact_loop_iff)
  from py_get_present [OF a] obtain v
    where v: "map_of it field = Some v" "v \<noteq> PNone" "py_get it field = v"
    by blast
  from b v(3) have "case (v, expected) of
              (PStr a, PStr b) \<Rightarrow> str_lower L a = str_lower L b
            | _ \<Rightarrow> py_eq v expected"
    by (simp only: normalize_eq_cases)
  with v show ?thesis by blast
qed

theorem exact_filter_only_if_witness:
  "apply_filters ascii_lower
      [[(''type'', PStr ''food'')], [(''type'', PStr ''Shelter'')], [(''name'', PStr ''Food'')]]
      [(''type'', PStr ''Food'')] None [] = [[(''type'', PStr ''food'')]] \<and>
   (\<exists>v. map_of [(''type'', PStr ''food'')] ''type'' = Some v \<and> v \<noteq> PNone \<and>
           (case (v, PStr ''Food'') of
              (PStr a, PStr b) \<Rightarrow> str_lower ascii_lower a = str_lower ascii_lower b
            | _ \<Rightarrow> py_eq v (PStr ''Food'')))"
proof -
  have e: "apply_filters ascii_lower
      [[(''type'', PStr ''food'')], [(''type'', PStr ''Shelter'')], [(''name'', PStr ''Food'')]]
      [(''type'', PStr ''Food'')] None [] = [[(''type'', PStr ''food'')]]"
    by code_simp
  have "[(''type'', PStr ''food'')] \<in> set (apply_filters ascii_lower
      [[(''type'', PStr ''food'')], [(''type'', PStr ''Shelter'')], [(''name'', PStr ''Food'')]]
      [(''type'', PStr ''Food'')] None [])"
    by (simp only: e) simp
  from exact_filter_only_if [OF this, of "''type''" "PStr ''Food''"] e
  show ?thesis by simp
qed

subsection \<open>Search\<close>

text \<open>
  C2. With a non-empty search query, a record that \<open>apply_filters\<close> keeps has the
  lower-cased query as a substring of its lower-cased haystack: the string forms of the
  listed search fields, a missing field giving the empty string, joined by single
  spaces. A record whose haystack does not hold the query is excluded, whatever its
  other fields hold (\<open>haystack_unlisted\<close>). Query and haystack are lower-cased by
  \<^verbatim>\<open>str.lower\<close>, the parameter \<open>L\<close>; the statement holds for every such function.
\<close>

theorem search_query_only_if:
  assumes "s \<noteq> []"
  shows "(it \<in> set (apply_filters L items ef (Some s) sf) \<longrightarrow>
            (\<exists>ps ss.
               str_lower L (join_space
                 (map (\<lambda>f. case map_of it f of None \<Rightarrow> [] | Some v \<Rightarrow> py_str v) sf))
               = ps @ str_lower L s @ ss)) \<and>
         ((\<nexists>ps ss.
               str_lower L (join_space
                 (map (\<lambda>f. case map_of it f of None \<Rightarrow> [] | Some v \<Rightarrow> py_str v) sf))
               = ps @ str_lower L s @ ss) \<longrightarrow>
            it \<notin> set (apply_filters L items ef (Some s) sf))"
  using assms
  by (auto simp: apply_filters_filter matches_iff query_of_Some str_lower_Nil_iff
        str_contains_iff haystack_spec)

theorem search_query_only_if_witness:
  "apply_filters ascii_lower
      [[(''name'', PStr ''Pantry''), (''notes'', PStr ''shelter'')],
       [(''name'', PStr ''Night Shelter'')]]
      [] (Some ''SHELTER'') [''name'', ''description'']
     = [[(''name'', PStr ''Night Shelter'')]] \<and>
   (\<exists>ps ss.
      str_lower ascii_lower (join_space
        (map (\<lambda>f. case map_of [(''name'', PStr ''Night Shelter'')] f of
                     None \<Rightarrow> [] | Some v \<Rightarrow> py_str v)
          [''name'', ''description'']))
      = ps @ str_lower ascii_lower ''SHELTER'' @ ss)"
proof -
  have e: "apply_filters ascii_lower
      [[(''name'', PStr ''Pantry''), (''notes'', PStr ''shelter'')],
       [(''name'', PStr ''Night Shelter'')]]
      [] (Some ''SHELTER'') [''name'', ''description'']
     = [[(''name'', PStr ''Night Shelter'')]]"
    by code_simp
  have m: "[(''name'', PStr ''Night Shelter'')] \<in> set (apply_filters ascii_lower
      [[(''name'', PStr ''Pantry''), (''notes'', PStr ''shelter'')],
       [(''name'', PStr ''Night Shelter'')]]
      [] (Some ''SHELTER'') [''name'', ''description''])"
    by (simp only: e) simp
  have n: "''SHELTER'' \<noteq> []" by simp
  from search_query_only_if [OF n, THEN conjunct1, rule_format, OF m] e
  show ?thesis by blast
qed

text \<open>
  C10. With a non-empty search query and no search field, \<open>apply_filters\<close> returns the
  empty list: the haystack of every record is the empty string.
\<close>

theorem empty_search_fields_no_results:
  "s \<noteq> [] \<Longrightarrow> apply_filters L items ef (Some s) [] = []"
  by (simp add: apply_filters_filter filter_empty_conv matches_iff query_of_Some
        str_lower_Nil_iff haystack_def str_lower_Nil)

theorem empty_search_fields_no_results_witness:
  "''food'' \<noteq> [] \<and>
   apply_filters ascii_lower [[(''name'', PStr ''food'')], [(''name'', PStr ''Food bank'')]]
     [] (Some ''food'') [] = []"
proof -
  have n: "''food'' \<noteq> []" by simp
  from n empty_search_fields_no_results [OF n] show ?thesis by blast
qed

subsection \<open>Algebraic properties\<close>

text \<open>
  C4. \<open>apply_filters\<close> is idempotent: filtering its own output again with the same
  exact filters, query and search fields returns that output.
\<close>

theorem apply_filters_idempotent:
  "apply_filters L (apply_filters L items ef sq sf) ef sq sf = apply_filters L items ef sq sf"
  by (simp add: apply_filters_filter)

theorem apply_filters_idempotent_witness:
  "apply_filters ascii_lower
     (apply_filters ascii_lower [[(''type'', PStr ''food'')], [(''type'', PStr ''Shelter'')]]
        [(''type'', PStr ''Food'')] (Some ''foo'') [''type''])
     [(''type'', PStr ''Food'')] (Some ''foo'') [''type'']
   = apply_filters ascii_lower [[(''type'', PStr ''food'')], [(''type'', PStr ''Shelter'')]]
        [(''type'', PStr ''Food'')] (Some ''foo'') [''type'']"
  by (rule apply_filters_idempotent)

text \<open>
  C5. The output of \<open>apply_filters\<close> is a subsequence of its input: every record of the
  output is a record of the input, and the records keep their relative order.
\<close>

theorem apply_filters_subseq:
  "subseq (apply_filters L items ef sq sf) items \<and>
   set (apply_filters L items ef sq sf) \<subseteq> set items"
  by (simp add: apply_filters_filter)

theorem apply_filters_subseq_witness:
  "subseq
     (apply_filters ascii_lower [[(''type'', PStr ''food'')], [(''type'', PStr ''Shelter'')]]
        [(''type'', PStr ''Food'')] None [])
     [[(''type'', PStr ''food'')], [(''type'', PStr ''Shelter'')]] \<and>
   set (apply_filters ascii_lower [[(''type'', PStr ''food'')], [(''type'', PStr ''Shelter'')]]
        [(''type'', PStr ''Food'')] None [])
     \<subseteq> set [[(''type'', PStr ''food'')], [(''type'', PStr ''Shelter'')]]"
  by (rule apply_filters_subseq)

text \<open>
  C6. An exact filter whose expected value is the empty string or \<^verbatim>\<open>None\<close> imposes no
  constraint: \<open>apply_filters\<close> returns the same list as without that entry. On the list
  endpoints, \<^verbatim>\<open>county=""\<close> gives the response of a request without \<^verbatim>\<open>county\<close>.
\<close>

theorem empty_filter_no_constraint:
  "apply_filters L items (ef1 @ (field, PStr []) # ef2) sq sf
     = apply_filters L items (ef1 @ ef2) sq sf \<and>
   apply_filters L items (ef1 @ (field, PNone) # ef2) sq sf
     = apply_filters L items (ef1 @ ef2) sq sf \<and>
   list_resources L ds (Some []) ty q lim = list_resources L ds None ty q lim \<and>
   list_opportunities L ds (Some []) cat q lim = list_opportunities L ds None cat q lim"
  by (simp add: apply_filters_filter cleaned_drop list_resources_def list_opportunities_def
        arg_val_def cleaned_filters_def)

theorem empty_filter_no_constraint_witness:
  "apply_filters ascii_lower [[(''county'', PStr ''Lake'')], [(''type'', PStr ''Food'')]]
     ([(''type'', PStr ''food'')] @ (''county'', PStr []) # []) None []
     = apply_filters ascii_lower [[(''county'', PStr ''Lake'')], [(''type'', PStr ''Food'')]]
         ([(''type'', PStr ''food'')] @ []) None [] \<and>
   apply_filters ascii_lower [[(''county'', PStr ''Lake'')], [(''type'', PStr ''Food'')]]
     ([(''type'', PStr ''food'')] @ []) None [] = [[(''type'', PStr ''Food'')]]"
proof -
  have e: "apply_filters ascii_lower [[(''county'', PStr ''Lake'')], [(''type'', PStr ''Food'')]]
     ([(''type'', PStr ''food'')] @ []) None [] = [[(''type'', PStr ''Food'')]]"
    by code_simp
  from e empty_filter_no_constraint
    [of ascii_lower "[[(''county'', PStr ''Lake'')], [(''type'', PStr ''Food'')]]"
        "[(''type'', PStr ''food'')]" "''county''" "[]" None "[]", THEN conjunct1]
  show ?thesis by blast
qed

section \<open>Properties of the handlers\<close>

subsection \<open>The result limit\<close>

text \<open>
  C3, as the specification states it, asks that a limit of zero gives zero elements and
  also that it leaves the list as it is. The handlers skip the truncation when the limit
  is zero: with one record in the dataset, \<^verbatim>\<open>limit=0\<close> returns that record.
\<close>

theorem limit_zero_counterexample:
  "list_resources ascii_lower [[(''id'', PStr ''r1'')]] None None None (Some 0)
     = (Results_body 1 [[(''id'', PStr ''r1'')]], 200) \<and>
   list_resources ascii_lower [[(''id'', PStr ''r1'')]] None None None (Some 0) \<noteq> (Results_body 0 [], 200) \<and>
   list_opportunities ascii_lower [[(''id'', PStr ''r1'')]] None None None (Some 0)
     \<noteq> (Results_body 0 [], 200)"
  by code_simp

text \<open>
  C3, amended. On both list endpoints an absent limit and a limit of zero leave the
  filtered list as it is, a negative limit gives the empty list, and any non-zero limit
  gives the first \<^verbatim>\<open>max(limit, 0)\<close> records of the filtered list; the count of the response
  is the length of the list returned.
\<close>

theorem limit_policy:
  "(let filtered = apply_filters L ds [(''county'', arg_val county), (''type'', arg_val ty)] q
                     [''name'', ''description'', ''county'', ''type''];
        truncated = take (nat (max n 0)) filtered
    in list_resources L ds county ty q None = (Results_body (length filtered) filtered, 200) \<and>
       list_resources L ds county ty q (Some 0) = (Results_body (length filtered) filtered, 200) \<and>
       (n < 0 \<longrightarrow> list_resources L ds county ty q (Some n) = (Results_body 0 [], 200)) \<and>
       (n \<noteq> 0 \<longrightarrow>
          list_resources L ds county ty q (Some n) = (Results_body (length truncated) truncated, 200))) \<and>
   (let filtered = apply_filters L ds [(''county'', arg_val county), (''category'', arg_val ty)] q
                     [''title'', ''description'', ''county'', ''category''];
        truncated = take (nat (max n 0)) filtered
    in list_opportunities L ds county ty q None = (Results_body (length filtered) filtered, 200) \<and>
       list_opportunities L ds county ty q (Some 0) = (Results_body (length filtered) filtered, 200) \<and>
       (n < 0 \<longrightarrow> list_opportunities L ds county ty q (Some n) = (Results_body 0 [], 200)) \<and>
       (n \<noteq> 0 \<longrightarrow>
          list_opportunities L ds county ty q (Some n)
            = (Results_body (length truncated) truncated, 200)))"
  by (simp add: list_resources_def list_opportunities_def Let_def)

theorem limit_policy_witness:
  "list_resources ascii_lower [[(''id'', PStr ''r1'')], [(''id'', PStr ''r2'')], [(''id'', PStr ''r3'')]]
     None None None (Some (- 2)) = (Results_body 0 [], 200) \<and>
   list_opportunities ascii_lower [[(''id'', PStr ''r1'')], [(''id'', PStr ''r2'')], [(''id'', PStr ''r3'')]]
     None None None (Some (- 2)) = (Results_body 0 [], 200) \<and>
   list_resources ascii_lower [[(''id'', PStr ''r1'')], [(''id'', PStr ''r2'')], [(''id'', PStr ''r3'')]]
     None None None (Some 2) = (Results_body 2 [[(''id'', PStr ''r1'')], [(''id'', PStr ''r2'')]], 200)"
proof -
  have n: "(- 2 :: int) < 0" by simp
  have p: "list_resources ascii_lower [[(''id'', PStr ''r1'')], [(''id'', PStr ''r2'')], [(''id'', PStr ''r3'')]]
     None None None (Some 2) = (Results_body 2 [[(''id'', PStr ''r1'')], [(''id'', PStr ''r2'')]], 200)"
    by code_simp
  from n p limit_policy
    [of ascii_lower "[[(''id'', PStr ''r1'')], [(''id'', PStr ''r2'')], [(''id'', PStr ''r3'')]]"
        None None None "- 2", unfolded Let_def]
  show ?thesis by blast
qed

subsection \<open>Lookup by identifier\<close>

lemma py_get_id_iff: "py_eq (py_get r k) (PStr s) \<longleftrightarrow> map_of r k = Some (PStr s)"
proof (cases "map_of r k")
  case None
  then show ?thesis by (simp add: py_get_def)
next
  case (Some v)
  then show ?thesis by (cases v) (simp_all add: py_get_def)
qed

lemma filter_first_eq:
  "P m \<Longrightarrow> \<forall>x\<in>set pre. \<not> P x \<Longrightarrow> filter P (pre @ m # post) = m # filter P post"
  by (induction pre) auto

lemma first_split:
  "\<exists>r\<in>set ds. P r \<Longrightarrow> \<exists>pre r post. ds = pre @ r # post \<and> P r \<and> (\<forall>x\<in>set pre. \<not> P x)"
  by (metis split_list_first_prop)

lemma get_resource_found:
  assumes "map_of r ''id'' = Some (PStr rid)"
    and "\<forall>x\<in>set pre. map_of x ''id'' \<noteq> Some (PStr rid)"
  shows "get_resource (pre @ r # post) rid = (Record_body r, 200)"
  using assms by (simp add: get_resource_def filter_first_eq py_get_id_iff)

lemma get_resource_404:
  "get_resource ds rid = (Error_body ''Resource not found'', 404) \<longleftrightarrow>
     (\<forall>r\<in>set ds. map_of r ''id'' \<noteq> Some (PStr rid))"
proof (cases "filter (\<lambda>r. py_eq (py_get r ''id'') (PStr rid)) ds")
  case Nil
  then show ?thesis by (simp add: get_resource_def filter_empty_conv py_get_id_iff)
next
  case (Cons m ms)
  then have "m \<in> set (filter (\<lambda>r. py_eq (py_get r ''id'') (PStr rid)) ds)" by simp
  then have "m \<in> set ds \<and> map_of m ''id'' = Some (PStr rid)" by (simp add: py_get_id_iff)
  with Cons show ?thesis by (auto simp: get_resource_def)
qed

lemma get_opportunity_found:
  assumes "map_of r ''id'' = Some (PStr rid)"
    and "\<forall>x\<in>set pre. map_of x ''id'' \<noteq> Some (PStr rid)"
  shows "get_opportunity (pre @ r # post) rid = (Record_body r, 200)"
  using assms by (simp add: get_opportunity_def filter_first_eq py_get_id_iff)

lemma get_opportunity_404:
  "get_opportunity ds rid = (Error_body ''Opportunity not found'', 404) \<longleftrightarrow>
     (\<forall>r\<in>set ds. map_of r ''id'' \<noteq> Some (PStr rid))"
proof (cases "filter (\<lambda>r. py_eq (py_get r ''id'') (PStr rid)) ds")
  case Nil
  then show ?thesis by (simp add: get_opportunity_def filter_empty_conv py_get_id_iff)
next
  case (Cons m ms)
  then have "m \<in> set (filter (\<lambda>r. py_eq (py_get r ''id'') (PStr rid)) ds)" by simp
  then have "m \<in> set ds \<and> map_of m ''id'' = Some (PStr rid)" by (simp add: py_get_id_iff)
  with Cons show ?thesis by (auto simp: get_opportunity_def)
qed

text \<open>
  C7. The lookup by identifier returns, with status 200, the first record of the dataset
  whose \<^verbatim>\<open>id\<close> field is the identifier; records before it do not have that
  \<^verbatim>\<open>id\<close>, later duplicates are ignored. It answers 404 with the error body exactly when
  no record has the identifier.
\<close>

theorem get_by_id_first_match:
  "((\<exists>r\<in>set ds. map_of r ''id'' = Some (PStr rid)) \<longrightarrow>
      (\<exists>pre r post. ds = pre @ r # post \<and> map_of r ''id'' = Some (PStr rid) \<and>
         (\<forall>x\<in>set pre. map_of x ''id'' \<noteq> Some (PStr rid)) \<and>
         get_resource ds rid = (Record_body r, 200) \<and>
         get_opportunity ds rid = (Record_body r, 200))) \<and>
   (get_resource ds rid = (Error_body ''Resource not found'', 404) \<longleftrightarrow>
      \<not> (\<exists>r\<in>set ds. map_of r ''id'' = Some (PStr rid))) \<and>
   (get_opportunity ds rid = (Error_body ''Opportunity not found'', 404) \<longleftrightarrow>
      \<not> (\<exists>r\<in>set ds. map_of r ''id'' = Some (PStr rid)))"
proof (intro conjI impI)
  assume "\<exists>r\<in>set ds. map_of r ''id'' = Some (PStr rid)"
  from first_split [of ds "\<lambda>r. map_of r ''id'' = Some (PStr rid)", OF this]
  obtain pre r post where d: "ds = pre @ r # post" "map_of r ''id'' = Some (PStr rid)"
    "\<forall>x\<in>set pre. map_of x ''id'' \<noteq> Some (PStr rid)" by blast
  from d get_resource_found [OF d(2,3), of post] get_opportunity_found [OF d(2,3), of post]
  show "\<exists>pre r post. ds = pre @ r # post \<and> map_of r ''id'' = Some (PStr rid) \<and>
         (\<forall>x\<in>set pre. map_of x ''id'' \<noteq> Some (PStr rid)) \<and>
         get_resource ds rid = (Record_body r, 200) \<and>
         get_opportunity ds rid = (Record_body r, 200)"
    by blast
next
  show "get_resource ds rid = (Error_body ''Resource not found'', 404) \<longleftrightarrow>
      \<not> (\<exists>r\<in>set ds. map_of r ''id'' = Some (PStr rid))"
    by (simp add: get_resource_404)
next
  show "get_opportunity ds rid = (Error_body ''Opportunity not found'', 404) \<longleftrightarrow>
      \<not> (\<exists>r\<in>set ds. map_of r ''id'' = Some (PStr rid))"
    by (simp add: get_opportunity_404)
qed

theorem get_by_id_first_match_witness:
  "get_resource
     [[(''id'', PStr ''b'')], [(''id'', PStr ''a''), (''n'', PInt 1)],
      [(''id'', PStr ''a''), (''n'', PInt 2)]] ''a''
     = (Record_body [(''id'', PStr ''a''), (''n'', PInt 1)], 200) \<and>
   get_resource
     [[(''id'', PStr ''b'')], [(''id'', PStr ''a''), (''n'', PInt 1)],
      [(''id'', PStr ''a''), (''n'', PInt 2)]] ''c''
     = (Error_body ''Resource not found'', 404) \<and>
   get_opportunity
     [[(''id'', PStr ''b'')], [(''id'', PStr ''a''), (''n'', PInt 1)],
      [(''id'', PStr ''a''), (''n'', PInt 2)]] ''c''
     = (Error_body ''Opportunity not found'', 404)"
proof -
  have a: "get_resource
     [[(''id'', PStr ''b'')], [(''id'', PStr ''a''), (''n'', PInt 1)],
      [(''id'', PStr ''a''), (''n'', PInt 2)]] ''a''
     = (Record_body [(''id'', PStr ''a''), (''n'', PInt 1)], 200)"
    by code_simp
  have n: "\<not> (\<exists>r\<in>set [[(''id'', PStr ''b'')], [(''id'', PStr ''a''), (''n'', PInt 1)],
      [(''id'', PStr ''a''), (''n'', PInt 2)]]. map_of r ''id'' = Some (PStr ''c''))"
    by simp
  from a n get_by_id_first_match
    [of "[[(''id'', PStr ''b'')], [(''id'', PStr ''a''), (''n'', PInt 1)],
      [(''id'', PStr ''a''), (''n'', PInt 2)]]" "''c''"]
  show ?thesis by blast
qed

subsection \<open>Statistics\<close>

lemma py_eq_refl: "py_eq v v"
  by (cases v) simp_all

lemma py_eq_sym: "py_eq a b = py_eq b a"
  by (cases a; cases b) auto

lemma py_eq_trans: "py_eq a b \<Longrightarrow> py_eq b c \<Longrightarrow> py_eq a c"
  by (cases a; cases b; cases c) auto

lemma py_eq_truthy: "py_eq a b \<Longrightarrow> truthy a = truthy b"
  by (cases a; cases b) auto

lemma py_eq_left_cong: "py_eq a b \<Longrightarrow> py_eq a c = py_eq b c"
  by (metis py_eq_sym py_eq_trans)

lemma py_eq_right_cong: "py_eq a b \<Longrightarrow> py_eq c a = py_eq c b"
  by (metis py_eq_sym py_eq_trans)

lemma dict_find_cong: "py_eq k v \<Longrightarrow> dict_find d k = dict_find d v"
  by (induction d) (auto simp: py_eq_right_cong)

lemma dict_find_set:
  "dict_find (dict_set d k v) k' = (if py_eq k k' then Some v else dict_find d k')"
proof (induction d)
  case Nil
  then show ?case by simp
next
  case (Cons e d)
  obtain k0 c where e: "e = (k0, c)" by (cases e)
  show ?case
  proof (cases "py_eq k0 k")
    case True
    then have "py_eq k0 k' = py_eq k k'" by (rule py_eq_left_cong)
    with True e show ?thesis by simp
  next
    case False
    have "\<not> (py_eq k0 k' \<and> py_eq k k')"
      using False by (metis py_eq_sym py_eq_trans)
    with False e Cons.IH show ?thesis by auto
  qed
qed

lemma dict_set_sum:
  "sum_list (map snd (dict_set d k (Suc (counts_get d k)))) = Suc (sum_list (map snd d))"
proof (induction d)
  case Nil
  then show ?case by (simp add: counts_get_def)
next
  case (Cons e d)
  obtain k0 c where e: "e = (k0, c)" by (cases e)
  show ?case
  proof (cases "py_eq k0 k")
    case True
    with e show ?thesis by (simp add: counts_get_def)
  next
    case False
    then have "counts_get (e # d) k = counts_get d k" by (simp add: e counts_get_def)
    with False e Cons.IH show ?thesis by simp
  qed
qed

lemma dict_set_keys: "fst ` set (dict_set d k v) \<subseteq> insert k (fst ` set d)"
proof (induction d)
  case Nil
  then show ?case by simp
next
  case (Cons e d)
  obtain k0 c where e: "e = (k0, c)" by (cases e)
  show ?case
  proof (cases "py_eq k0 k")
    case True
    with e show ?thesis by auto
  next
    case False
    with e Cons.IH show ?thesis by auto
  qed
qed

lemma dict_set_distinct:
  "dict_keys_distinct d \<Longrightarrow> dict_keys_distinct (dict_set d k v)"
proof (induction d)
  case Nil
  then show ?case by simp
next
  case (Cons e d)
  obtain k0 c where e: "e = (k0, c)" by (cases e)
  show ?case
  proof (cases "py_eq k0 k")
    case True
    with e Cons.prems show ?thesis by simp
  next
    case False
    then have "\<not> py_eq k k0" by (simp add: py_eq_sym)
    with False e Cons show ?thesis by (simp add: dict_find_set)
  qed
qed

lemma tally_loop_find:
  "dict_find (tally_loop c items key) v =
     (let n = length (filter (\<lambda>it. truthy (py_get it key) \<and> py_eq (py_get it key) v) items)
      in case dict_find c v of
           None \<Rightarrow> if n = 0 then None else Some n
         | Some m \<Rightarrow> Some (m + n))"
proof (induction items arbitrary: c)
  case Nil
  then show ?case by (simp split: option.splits)
next
  case (Cons it items)
  show ?case
  proof (cases "truthy (py_get it key)")
    case False
    with Cons.IH [of c] show ?thesis by simp
  next
    case True
    show ?thesis
    proof (cases "py_eq (py_get it key) v")
      case eq: True
      then have "dict_find c (py_get it key) = dict_find c v" by (rule dict_find_cong)
      with True eq Cons.IH [of "dict_set c (py_get it key) (counts_get c (py_get it key) + 1)"]
      show ?thesis
        by (simp add: Let_def dict_find_set counts_get_def split: option.splits)
    next
      case ne: False
      with True Cons.IH [of "dict_set c (py_get it key) (counts_get c (py_get it key) + 1)"]
      show ?thesis
        by (simp add: Let_def dict_find_set)
    qed
  qed
qed

lemma tally_loop_sum:
  "sum_list (map snd (tally_loop c items key)) =
     sum_list (map snd c) + length (filter (\<lambda>it. truthy (py_get it key)) items)"
  by (induction items arbitrary: c) (simp_all add: Let_def dict_set_sum)

lemma step_keys:
  assumes "truthy k0" and "\<forall>k \<in> fst ` set c. truthy k"
  shows "\<forall>k \<in> fst ` set (dict_set c k0 v). truthy k"
proof
  fix k
  assume "k \<in> fst ` set (dict_set c k0 v)"
  with dict_set_keys [of c k0 v] have "k \<in> insert k0 (fst ` set c)" by (rule subsetD)
  then have "k = k0 \<or> k \<in> fst ` set c" by (simp only: insert_iff)
  with assms show "truthy k" by blast
qed

lemma tally_loop_keys:
  "\<forall>k \<in> fst ` set c. truthy k \<Longrightarrow> \<forall>k \<in> fst ` set (tally_loop c items key). truthy k"
proof (induction items arbitrary: c)
  case Nil
  then show ?case by simp
next
  case (Cons it items)
  show ?case
  proof (cases "truthy (py_get it key)")
    case False
    with Cons.IH [OF Cons.prems] show ?thesis by simp
  next
    case True
    from Cons.IH [OF step_keys [OF True Cons.prems]] True show ?thesis
      by (simp add: Let_def)
  qed
qed

lemma tally_loop_distinct:
  "dict_keys_distinct c \<Longrightarrow> dict_keys_distinct (tally_loop c items key)"
  by (induction items arbitrary: c) (simp_all add: Let_def dict_set_distinct)

text \<open>
  C8. \<open>tally\<close> maps every truthy value of the key to the number of records that have
  it, and has no entry for a value that no record has. A record whose value for the key
  is missing or falsy is not counted: no key of the result is falsy. No two entries of
  the result have equal keys, and the counts add up to the number of records with a
  truthy value for the key.
\<close>

theorem tally_counts:
  "(truthy v \<longrightarrow>
      dict_find (tally items key) v =
        (let n = length (filter (\<lambda>it. py_eq (py_get it key) v) items)
         in if n = 0 then None else Some n)) \<and>
   (\<not> truthy w \<longrightarrow> dict_find (tally items key) w = None) \<and>
   (\<forall>k \<in> fst ` set (tally items key). truthy k) \<and>
   dict_keys_distinct (tally items key) \<and>
   sum_list (map snd (tally items key)) = length (filter (\<lambda>it. truthy (py_get it key)) items)"
proof (intro conjI impI)
  assume v: "truthy v"
  have "(\<lambda>it. truthy (py_get it key) \<and> py_eq (py_get it key) v) = (\<lambda>it. py_eq (py_get it key) v)"
    using v by (auto simp: fun_eq_iff dest: py_eq_truthy)
  then show "dict_find (tally items key) v =
        (let n = length (filter (\<lambda>it. py_eq (py_get it key) v) items)
         in if n = 0 then None else Some n)"
    by (simp add: tally_def tally_loop_find)
next
  assume w: "\<not> truthy w"
  have "(\<lambda>it. truthy (py_get it key) \<and> py_eq (py_get it key) w) = (\<lambda>it. False)"
    using w by (auto simp: fun_eq_iff dest: py_eq_truthy)
  then show "dict_find (tally items key) w = None"
    by (simp add: tally_def tally_loop_find)
next
  show "\<forall>k \<in> fst ` set (tally items key). truthy k"
    unfolding tally_def by (rule tally_loop_keys) simp
next
  show "dict_keys_distinct (tally items key)"
    unfolding tally_def by (rule tally_loop_distinct) simp
next
  show "sum_list (map snd (tally items key)) = length (filter (\<lambda>it. truthy (py_get it key)) items)"
    by (simp add: tally_def tally_loop_sum)
qed


theorem tally_counts_witness:
  "tally [[(''county'', PStr ''Lake'')], [(''county'', PStr ''Cook'')], [(''county'', PStr [])],
          [(''name'', PStr ''x'')], [(''county'', PStr ''Lake'')]] ''county''
     = [(PStr ''Lake'', 2), (PStr ''Cook'', 1)] \<and>
   dict_find (tally [[(''county'', PStr ''Lake'')], [(''county'', PStr ''Cook'')], [(''county'', PStr [])],
          [(''name'', PStr ''x'')], [(''county'', PStr ''Lake'')]] ''county'') (PStr ''Lake'') = Some 2 \<and>
   dict_find (tally [[(''county'', PStr ''Lake'')], [(''county'', PStr ''Cook'')], [(''county'', PStr [])],
          [(''name'', PStr ''x'')], [(''county'', PStr ''Lake'')]] ''county'') (PStr []) = None \<and>
   sum_list (map snd (tally [[(''county'', PStr ''Lake'')], [(''county'', PStr ''Cook'')], [(''county'', PStr [])],
          [(''name'', PStr ''x'')], [(''county'', PStr ''Lake'')]] ''county'')) = 3"
proof -
  have t: "truthy (PStr ''Lake'')" by simp
  have f: "\<not> truthy (PStr [])" by simp
  have e: "tally [[(''county'', PStr ''Lake'')], [(''county'', PStr ''Cook'')], [(''county'', PStr [])],
          [(''name'', PStr ''x'')], [(''county'', PStr ''Lake'')]] ''county''
     = [(PStr ''Lake'', 2), (PStr ''Cook'', 1)]"
    by code_simp
  have n: "(let n = length (filter (\<lambda>it. py_eq (py_get it ''county'') (PStr ''Lake''))
             [[(''county'', PStr ''Lake'')], [(''county'', PStr ''Cook'')], [(''county'', PStr [])],
              [(''name'', PStr ''x'')], [(''county'', PStr ''Lake'')]])
           in if n = 0 then None else Some n) = Some 2"
    by code_simp
  have l: "length (filter (\<lambda>it. truthy (py_get it ''county''))
             [[(''county'', PStr ''Lake'')], [(''county'', PStr ''Cook'')], [(''county'', PStr [])],
              [(''name'', PStr ''x'')], [(''county'', PStr ''Lake'')]]) = 3"
    by code_simp
  from t f e n l tally_counts [of "PStr ''Lake''"
     "[[(''county'', PStr ''Lake'')], [(''county'', PStr ''Cook'')], [(''county'', PStr [])],
       [(''name'', PStr ''x'')], [(''county'', PStr ''Lake'')]]" "''county''" "PStr []"]
  show ?thesis by (simp only: simp_thms)
qed

subsection \<open>Login\<close>

lemma dict_find_USERS: "dict_find USERS e = Some s \<longleftrightarrow> (e, s) \<in> set USERS"
proof (cases e)
  case (PStr x)
  show ?thesis unfolding USERS_def PStr by simp blast?
qed (simp_all add: USERS_def)

lemma USERS_secret_str:
  assumes "(e, s) \<in> set USERS"
  shows "py_eq s p \<longleftrightarrow> p = s"
proof -
  from assms have "s = PStr ''demo123'' \<or> s = PStr ''adminpass''"
    by (simp add: USERS_def) blast
  then obtain t where s: "s = PStr t" by blast
  show ?thesis unfolding s by (cases p) (simp_all, blast)
qed

lemma users_test:
  "(case dict_find USERS e of None \<Rightarrow> False | Some secret \<Rightarrow> py_eq secret p) \<longleftrightarrow>
   (\<exists>secret. (e, secret) \<in> set USERS \<and> p = secret)"
proof
  assume a: "case dict_find USERS e of None \<Rightarrow> False | Some secret \<Rightarrow> py_eq secret p"
  then obtain s where s: "dict_find USERS e = Some s" and q: "py_eq s p"
    by (cases "dict_find USERS e") simp_all
  from s have m: "(e, s) \<in> set USERS" by (simp only: dict_find_USERS)
  from q USERS_secret_str [OF m, of p] have "p = s" by blast
  with m show "\<exists>secret. (e, secret) \<in> set USERS \<and> p = secret" by blast
next
  assume "\<exists>secret. (e, secret) \<in> set USERS \<and> p = secret"
  then have m: "(e, p) \<in> set USERS" by blast
  then have s: "dict_find USERS e = Some p" by (simp only: dict_find_USERS)
  from USERS_secret_str [OF m, of p] have "py_eq p p" by blast
  with s show "case dict_find USERS e of None \<Rightarrow> False | Some secret \<Rightarrow> py_eq secret p"
    by simp
qed

lemma login_cases:
  "login data =
     (if \<exists>secret. (py_get data ''email'', secret) \<in> set USERS \<and>
                  py_get data ''password'' = secret
      then (Login_body True ''Login successful'', 200)
      else (Login_body False ''Invalid credentials'', 401))"
  unfolding login_def Let_def users_test ..

lemma login_responses_differ:
  "(Login_body True ''Login successful'', 200::nat) \<noteq>
   (Login_body False ''Invalid credentials'', 401)"
  by simp

text \<open>
  C9. \<open>login\<close> answers 200 with \<^verbatim>\<open>success: true\<close> if and only if the e-mail of the
  request is a key of \<open>USERS\<close> and the password of the request is the secret stored
  for it; otherwise it answers 401 with \<^verbatim>\<open>success: false\<close> and one message, the same
  for an unknown e-mail and for a wrong password.
\<close>

theorem login_iff_credentials:
  "(login data = (Login_body True ''Login successful'', 200) \<longleftrightarrow>
      (\<exists>secret. (py_get data ''email'', secret) \<in> set USERS \<and>
                py_get data ''password'' = secret)) \<and>
   (login data = (Login_body False ''Invalid credentials'', 401) \<longleftrightarrow>
      \<not> (\<exists>secret. (py_get data ''email'', secret) \<in> set USERS \<and>
                  py_get data ''password'' = secret))"
proof (cases "\<exists>secret. (py_get data ''email'', secret) \<in> set USERS \<and>
                       py_get data ''password'' = secret")
  case True
  then have "login data = (Login_body True ''Login successful'', 200)"
    by (simp only: login_cases if_True)
  with True login_responses_differ show ?thesis by simp
next
  case False
  then have "login data = (Login_body False ''Invalid credentials'', 401)"
    by (simp only: login_cases if_False)
  with False login_responses_differ show ?thesis by simp
qed

theorem login_iff_credentials_witness:
  "login [(''email'', PStr ''demo@nrtr.org''), (''password'', PStr ''demo123'')]
     = (Login_body True ''Login successful'', 200) \<and>
   (\<exists>secret.
      (py_get [(''email'', PStr ''demo@nrtr.org''), (''password'', PStr ''demo123'')] ''email'',
       secret) \<in> set USERS \<and>
      py_get [(''email'', PStr ''demo@nrtr.org''), (''password'', PStr ''demo123'')] ''password''
        = secret) \<and>
   login [(''email'', PStr ''demo@nrtr.org''), (''password'', PStr ''wrong'')]
     = (Login_body False ''Invalid credentials'', 401) \<and>
   login [(''email'', PStr ''nobody@nrtr.org''), (''password'', PStr ''demo123'')]
     = (Login_body False ''Invalid credentials'', 401) \<and>
   \<not> (\<exists>secret.
      (py_get [(''email'', PStr ''nobody@nrtr.org''), (''password'', PStr ''demo123'')] ''email'',
       secret) \<in> set USERS \<and>
      py_get [(''email'', PStr ''nobody@nrtr.org''), (''password'', PStr ''demo123'')] ''password''
        = secret)"
proof -
  have a: "login [(''email'', PStr ''demo@nrtr.org''), (''password'', PStr ''demo123'')]
     = (Login_body True ''Login successful'', 200)"
    by code_simp
  have b: "login [(''email'', PStr ''demo@nrtr.org''), (''password'', PStr ''wrong'')]
     = (Login_body False ''Invalid credentials'', 401)"
    by code_simp
  have c: "login [(''email'', PStr ''nobody@nrtr.org''), (''password'', PStr ''demo123'')]
     = (Login_body False ''Invalid credentials'', 401)"
    by code_simp
  from a b c
    login_iff_credentials
      [of "[(''email'', PStr ''demo@nrtr.org''), (''password'', PStr ''demo123'')]"]
    login_iff_credentials
      [of "[(''email'', PStr ''nobody@nrtr.org''), (''password'', PStr ''demo123'')]"]
  show ?thesis by blast
qed

end
